theory Spec2Isabelle
  imports Main "HOL-Library.Sublist"
begin

section \<open>Data model\<close>

text \<open>
  The booking controller (\<^verbatim>\<open>controllers/booking\<close>), the \<^verbatim>\<open>Booking\<close> schema with its
  \<^verbatim>\<open>pre('save')\<close> hook, the \<^verbatim>\<open>Exhibition\<close> schema and \<^verbatim>\<open>deleteExhibition\<close> are embedded.
  The two MongoDB collections and the set of user records are one explicit database value
  that every handler takes and returns next to its HTTP response.

  Identifiers (\<^verbatim>\<open>ObjectId\<close>) are natural numbers, \<^verbatim>\<open>Number\<close> fields are integers, a
  \<^verbatim>\<open>Date\<close> is a day number (the handlers compare dates at day granularity only). Of an
  exhibition only the fields read by the handlers are kept, and the identifier that ends
  the message of two 404 answers is left out.
\<close>

datatype role = Admin | Member

record principal =
  uid :: nat
  urole :: role

record exhibition =
  startDate :: int
  smallBoothQuota :: int
  bigBoothQuota :: int

record booking =
  bid :: nat
  buser :: nat
  bexhibition :: nat
  boothType :: string
  amount :: int

record db =
  exhibitions :: "nat \<rightharpoonup> exhibition"
  bookings :: "booking list"
  users :: "nat set"

text \<open>\<open>users\<close> are the user records that \<^verbatim>\<open>populate('user')\<close> can find.\<close>

text \<open>An error thrown inside a handler's \<^verbatim>\<open>try\<close> block, with its \<^verbatim>\<open>message\<close> and \<^verbatim>\<open>code\<close>.\<close>

datatype thrown =
    ValidationError string
  | HookError string
  | MongoError nat string

fun message :: "thrown \<Rightarrow> string" where
  "message (ValidationError m) = m"
| "message (HookError m) = m"
| "message (MongoError c m) = m"

fun code :: "thrown \<Rightarrow> nat option" where
  "code (MongoError c m) = Some c"
| "code _ = None"

text \<open>\<^verbatim>\<open>res.status(n).json(...)\<close>: either a \<^verbatim>\<open>data\<close> payload or a \<^verbatim>\<open>message\<close>.\<close>

datatype response = Data nat "booking option" | Msg nat string

fun status :: "response \<Rightarrow> nat" where
  "status (Data n d) = n"
| "status (Msg n m) = n"

text \<open>
  The error kinds of the interface, read off the status code: 400 is BadRequest, 404 is
  NotFound, 401 and 403 are the refusals of a principal (Forbidden), 500 is Internal.
\<close>

datatype kind = Succeeded | NotFound | Forbidden | BadRequest | Internal

definition kind_of :: "response \<Rightarrow> kind" where
  "kind_of r =
     (if status r = 200 \<or> status r = 201 then Succeeded
      else if status r = 400 then BadRequest
      else if status r = 401 \<or> status r = 403 then Forbidden
      else if status r = 404 then NotFound
      else Internal)"

section \<open>Quota ledger\<close>

text \<open>
  \<^verbatim>\<open>boothType === 'small' ? exhibition.smallBoothQuota : exhibition.bigBoothQuota\<close>, and the
  matching \<^verbatim>\<open>+=\<close> / \<^verbatim>\<open>-=\<close> on the counter: every type that is not \<^verbatim>\<open>'small'\<close> takes the
  \<^verbatim>\<open>else\<close> branch.
\<close>

definition quotaOf :: "exhibition \<Rightarrow> string \<Rightarrow> int" where
  "quotaOf e t = (if t = ''small'' then smallBoothQuota e else bigBoothQuota e)"

definition addQuota :: "exhibition \<Rightarrow> string \<Rightarrow> int \<Rightarrow> exhibition" where
  "addQuota e t n =
     (if t = ''small'' then e\<lparr>smallBoothQuota := smallBoothQuota e + n\<rparr>
      else e\<lparr>bigBoothQuota := bigBoothQuota e + n\<rparr>)"

text \<open>
  \<^verbatim>\<open>Booking.aggregate([{$match: ...}, {$group: {_id: null, total: {$sum: '$amount'}}}])\<close>
  followed by \<^verbatim>\<open>r.length > 0 ? r[0].total : 0\<close>.
\<close>

definition sumAmount :: "(booking \<Rightarrow> bool) \<Rightarrow> booking list \<Rightarrow> int" where
  "sumAmount P bs = sum_list (map amount (filter P bs))"

definition totalBoothsForType :: "booking list \<Rightarrow> nat \<Rightarrow> string \<Rightarrow> int" where
  "totalBoothsForType bs e t = sumAmount (\<lambda>b. bexhibition b = e \<and> boothType b = t) bs"

definition totalBoothsForUser :: "booking list \<Rightarrow> nat \<Rightarrow> nat \<Rightarrow> int" where
  "totalBoothsForUser bs u e = sumAmount (\<lambda>b. buser b = u \<and> bexhibition b = e) bs"

definition otherBookingsTotal :: "booking list \<Rightarrow> booking \<Rightarrow> int" where
  "otherBookingsTotal bs doc =
     sumAmount (\<lambda>b. buser b = buser doc \<and> bexhibition b = bexhibition doc \<and> bid b \<noteq> bid doc) bs"

section \<open>Persistence of a booking\<close>

text \<open>\<^verbatim>\<open>findOne\<close>, \<^verbatim>\<open>deleteOne\<close> and the write of a saved document act on the first match.\<close>

fun findOne :: "(booking \<Rightarrow> bool) \<Rightarrow> booking list \<Rightarrow> booking option" where
  "findOne P [] = None"
| "findOne P (b # bs) = (if P b then Some b else findOne P bs)"

fun deleteOne :: "nat \<Rightarrow> booking list \<Rightarrow> booking list" where
  "deleteOne i [] = []"
| "deleteOne i (b # bs) = (if bid b = i then bs else b # deleteOne i bs)"

fun updateOne :: "booking \<Rightarrow> booking list \<Rightarrow> booking list" where
  "updateOne doc [] = []"
| "updateOne doc (b # bs) = (if bid b = bid doc then doc # bs else b # updateOne doc bs)"

text \<open>
  The \<^verbatim>\<open>ObjectId\<close> that a new document gets: an identifier that no stored booking has.
\<close>

definition newObjectId :: "booking list \<Rightarrow> nat" where
  "newObjectId bs = Suc (foldr max (map bid bs) 0)"

text \<open>
  A document being saved is the pair of its state as loaded (\<open>None\<close> for a new document)
  and its current fields; \<^verbatim>\<open>isModified('amount')\<close> compares the two.
\<close>

definition isModifiedAmount :: "booking option \<Rightarrow> booking \<Rightarrow> bool" where
  "isModifiedAmount orig doc = (case orig of None \<Rightarrow> True | Some old \<Rightarrow> amount doc \<noteq> amount old)"

text \<open>
  The schema validators, run by \<^verbatim>\<open>save\<close> before the schema's own \<^verbatim>\<open>pre('save')\<close> hook, on
  the paths of a new document and on the loaded paths of a stored one, modified or not:
  \<^verbatim>\<open>boothType\<close> has \<^verbatim>\<open>enum: ['small', 'big']\<close>, \<^verbatim>\<open>amount\<close> has \<^verbatim>\<open>min: 1\<close>.
\<close>

definition validateBooking :: "booking \<Rightarrow> thrown option" where
  "validateBooking doc =
     (if boothType doc \<noteq> ''small'' \<and> boothType doc \<noteq> ''big''
      then Some (ValidationError ''Booking validation failed: boothType: not a valid enum value'')
      else if amount doc < 1
      then Some (ValidationError
                   ''Booking validation failed: amount: Booking amount must be at least 1'')
      else None)"

text \<open>
  \<^verbatim>\<open>BookingSchema.pre('save', ...)\<close>. After \<^verbatim>\<open>next(new Error(...))\<close> the hook goes on to call
  \<^verbatim>\<open>next()\<close> a second time; the hook runner of the library acts on the first call only, so
  the error is what \<^verbatim>\<open>save\<close> rejects with.
\<close>

definition preSave :: "booking list \<Rightarrow> booking option \<Rightarrow> booking \<Rightarrow> thrown option" where
  "preSave bs orig doc =
     (if \<not> isModifiedAmount orig doc then None
      else
        let newTotal = otherBookingsTotal bs doc + amount doc
        in if newTotal > 6
           then Some (HookError ''Total number of booths cannot exceed 6 per exhibition'')
           else None)"

definition saveBooking :: "booking option \<Rightarrow> booking \<Rightarrow> booking list \<Rightarrow> thrown + booking list" where
  "saveBooking orig doc bs =
     (case validateBooking doc of
        Some e \<Rightarrow> Inl e
      | None \<Rightarrow>
         (case preSave bs orig doc of
            Some e \<Rightarrow> Inl e
          | None \<Rightarrow> Inr (case orig of None \<Rightarrow> bs @ [doc] | Some old \<Rightarrow> updateOne doc bs)))"

section \<open>Persistence of an exhibition\<close>

text \<open>
  \<^verbatim>\<open>exhibition.save()\<close> of a loaded exhibition: the two quota paths have \<^verbatim>\<open>min: 0\<close>, and both
  are validated, the counter that the handler changed and the one it left alone.
\<close>

definition saveExhibition :: "nat \<Rightarrow> exhibition \<Rightarrow> db \<Rightarrow> thrown + db" where
  "saveExhibition i doc s =
     (if smallBoothQuota doc < 0
      then Inl (ValidationError
                  ''Exhibition validation failed: smallBoothQuota: Small booth quota cannot be negative'')
      else if bigBoothQuota doc < 0
      then Inl (ValidationError
                  ''Exhibition validation failed: bigBoothQuota: Big booth quota cannot be negative'')
      else Inr (s\<lparr>exhibitions := (exhibitions s)(i \<mapsto> doc)\<rparr>))"

section \<open>Booking handlers\<close>

text \<open>JavaScript's \<^verbatim>\<open>x > n\<close>, \<^verbatim>\<open>m + x\<close> and \<^verbatim>\<open>x || y\<close> on a request field that may be absent.\<close>

definition js_gt :: "int option \<Rightarrow> int \<Rightarrow> bool" where
  "js_gt x n = (case x of None \<Rightarrow> False | Some a \<Rightarrow> a > n)"

definition js_plus :: "int \<Rightarrow> int option \<Rightarrow> int option" where
  "js_plus m x = (case x of None \<Rightarrow> None | Some a \<Rightarrow> Some (m + a))"

definition or_string :: "string option \<Rightarrow> string \<Rightarrow> string" where
  "or_string x y = (case x of None \<Rightarrow> y | Some t \<Rightarrow> if t = [] then y else t)"

definition or_number :: "int option \<Rightarrow> int \<Rightarrow> int" where
  "or_number x y = (case x of None \<Rightarrow> y | Some a \<Rightarrow> if a = 0 then y else a)"

text \<open>\<^verbatim>\<open>['small', 'big'].includes(req.body.boothType)\<close>\<close>

definition includesBoothType :: "string option \<Rightarrow> bool" where
  "includesBoothType t = (t = Some ''small'' \<or> t = Some ''big'')"

text \<open>\<^verbatim>\<open>error.message.includes(needle)\<close>\<close>

definition messageIncludes :: "string \<Rightarrow> string \<Rightarrow> bool" where
  "messageIncludes msg needle = sublist needle msg"

text \<open>The query of \<^verbatim>\<open>updateBooking\<close> and \<^verbatim>\<open>deleteBooking\<close>: by id, and by owner unless admin.\<close>

definition ownQuery :: "principal \<Rightarrow> nat \<Rightarrow> booking \<Rightarrow> bool" where
  "ownQuery p i b = (bid b = i \<and> (urole p \<noteq> Admin \<longrightarrow> buser b = uid p))"

text \<open>
  \<^verbatim>\<open>exports.getBooking\<close>. \<^verbatim>\<open>populate('user')\<close> leaves \<^verbatim>\<open>null\<close> where the user record is gone,
  and \<^verbatim>\<open>booking.user._id\<close> then throws into the \<^verbatim>\<open>catch\<close>.
\<close>

definition getBooking :: "db \<Rightarrow> principal \<Rightarrow> nat \<Rightarrow> response" where
  "getBooking s p i =
     (case findOne (\<lambda>b. bid b = i) (bookings s) of
        None \<Rightarrow> Msg 404 ''Booking not found with id of ''
      | Some b \<Rightarrow>
          if buser b \<notin> users s then Msg 500 ''Server Error''
          else if buser b \<noteq> uid p \<and> urole p \<noteq> Admin
          then Msg 401 ''Not authorized to access this booking''
          else Data 200 (Some b))"

text \<open>The \<^verbatim>\<open>catch\<close> block of \<^verbatim>\<open>createBooking\<close>.\<close>

definition catchCreate :: "thrown \<Rightarrow> response" where
  "catchCreate e =
     (if code e = Some 11000 then Msg 400 ''Invalid booking request''
      else Msg 500 ''Server Error'')"

text \<open>
  \<^verbatim>\<open>exports.createBooking\<close>, with the clock's current day as \<open>today\<close>. \<open>totalBooked\<close> is
  computed and not used, as in the source. An absent \<^verbatim>\<open>amount\<close> passes both comparisons
  and fails the \<^verbatim>\<open>required\<close> validator of \<^verbatim>\<open>Booking.create\<close>.
\<close>

definition createBooking ::
  "int \<Rightarrow> db \<Rightarrow> principal \<Rightarrow> nat \<Rightarrow> string option \<Rightarrow> int option \<Rightarrow> response \<times> db" where
  "createBooking today s p exId reqBoothType reqAmount =
     (case exhibitions s exId of
        None \<Rightarrow> (Msg 404 ''Exhibition not found with id of '', s)
      | Some ex \<Rightarrow>
          if \<not> includesBoothType reqBoothType
          then (Msg 400 ''Booth type must be either small or big'', s)
          else if startDate ex < today
          then (Msg 400 ''Cannot book for an exhibition that has already started'', s)
          else
            let t = or_string reqBoothType [];
                availableQuota = quotaOf ex t;
                totalBooked = totalBoothsForType (bookings s) exId t
            in if js_gt reqAmount availableQuota
               then (Msg 400 (''Not enough '' @ t @ '' booths available''), s)
               else
                 let userTotalBooths = totalBoothsForUser (bookings s) (uid p) exId
                 in if (case js_plus userTotalBooths reqAmount of
                          None \<Rightarrow> False | Some n \<Rightarrow> n > 6)
                    then (Msg 400 ''Total number of booths per exhibition cannot exceed 6'', s)
                    else
                      (case reqAmount of
                         None \<Rightarrow>
                           (catchCreate (ValidationError
                              ''Booking validation failed: amount: Path `amount` is required.''), s)
                       | Some a \<Rightarrow>
                           let doc = \<lparr>bid = newObjectId (bookings s), buser = uid p, bexhibition = exId,
                                      boothType = t, amount = a\<rparr>
                           in (case saveBooking None doc (bookings s) of
                                 Inl e \<Rightarrow> (catchCreate e, s)
                               | Inr bs \<Rightarrow>
                                   let s1 = s\<lparr>bookings := bs\<rparr>
                                   in (case saveExhibition exId (addQuota ex t (- a)) s1 of
                                         Inl e \<Rightarrow> (catchCreate e, s1)
                                       | Inr s2 \<Rightarrow>
                                           (Data 201 (findOne (\<lambda>b. bid b = bid doc) (bookings s2)),
                                            s2)))))"

text \<open>
  \<^verbatim>\<open>exports.deleteBooking\<close>: the quota is given back when the exhibition is found, then the
  booking is removed.
\<close>

definition deleteBooking :: "db \<Rightarrow> principal \<Rightarrow> nat \<Rightarrow> response \<times> db" where
  "deleteBooking s p i =
     (case findOne (ownQuery p i) (bookings s) of
        None \<Rightarrow> (Msg 404 ''Booking not found'', s)
      | Some b \<Rightarrow>
          (case (case exhibitions s (bexhibition b) of
                   None \<Rightarrow> Inr s
                 | Some ex \<Rightarrow>
                     saveExhibition (bexhibition b) (addQuota ex (boothType b) (amount b)) s) of
             Inl e \<Rightarrow> (Msg 500 ''Server Error'', s)
           | Inr s1 \<Rightarrow>
               (Msg 200 ''Booking deleted successfully'',
                s1\<lparr>bookings := deleteOne (bid b) (bookings s1)\<rparr>)))"

text \<open>The \<^verbatim>\<open>catch\<close> block of \<^verbatim>\<open>updateBooking\<close>.\<close>

definition catchUpdate :: "thrown \<Rightarrow> response" where
  "catchUpdate e =
     (if messageIncludes (message e) ''Total number of booths cannot exceed 6''
      then Msg 400 (message e)
      else Msg 500 ''Server Error'')"

text \<open>
  \<^verbatim>\<open>exports.updateBooking\<close>. The exhibition is saved before the booking; what
  \<^verbatim>\<open>booking.save()\<close> throws reaches the \<^verbatim>\<open>catch\<close> with the exhibition already written.
\<close>

definition updateBooking ::
  "db \<Rightarrow> principal \<Rightarrow> nat \<Rightarrow> string option \<Rightarrow> int option \<Rightarrow> response \<times> db" where
  "updateBooking s p i reqBoothType reqAmount =
     (case findOne (ownQuery p i) (bookings s) of
        None \<Rightarrow> (Msg 404 ''Booking not found'', s)
      | Some b \<Rightarrow>
          if \<not> includesBoothType reqBoothType
          then (Msg 400 ''Booth type must be either small or big'', s)
          else
            (case exhibitions s (bexhibition b) of
               None \<Rightarrow> (Msg 404 ''Exhibition not found'', s)
             | Some ex \<Rightarrow>
                 let ex1 = addQuota ex (boothType b) (amount b);
                     newBoothType = or_string reqBoothType (boothType b);
                     newAmount = or_number reqAmount (amount b);
                     quotaToCheck = quotaOf ex1 newBoothType
                 in if quotaToCheck < newAmount
                    then (Msg 400 (''Not enough '' @ newBoothType @ '' booths available''), s)
                    else
                      (case saveExhibition (bexhibition b)
                              (addQuota ex1 newBoothType (- newAmount)) s of
                         Inl e \<Rightarrow> (catchUpdate e, s)
                       | Inr s1 \<Rightarrow>
                           let doc = b\<lparr>amount := newAmount, boothType := newBoothType\<rparr>
                           in (case saveBooking (Some b) doc (bookings s1) of
                                 Inl e \<Rightarrow> (catchUpdate e, s1)
                               | Inr bs \<Rightarrow>
                                   (Data 200 (findOne (\<lambda>x. bid x = bid b) bs),
                                    s1\<lparr>bookings := bs\<rparr>)))))"

section \<open>Exhibition handlers\<close>

text \<open>\<^verbatim>\<open>exports.deleteExhibition\<close>: \<^verbatim>\<open>Exhibition.findByIdAndDelete\<close> and nothing else.\<close>

definition deleteExhibition :: "db \<Rightarrow> nat \<Rightarrow> response \<times> db" where
  "deleteExhibition s i =
     (case exhibitions s i of
        None \<Rightarrow> (Msg 404 ''Exhibition not found'', s)
      | Some ex \<Rightarrow> (Msg 200 ''Exhibition deleted'', s\<lparr>exhibitions := (exhibitions s)(i := None)\<rparr>))"

section \<open>States of the database\<close>

text \<open>
  What the schema validators, the save hook and the generation of identifiers maintain in
  the booking collection: identifiers are unique, every amount is at least 1, and no
  (user, exhibition) pair holds more than 6 booths.
\<close>

definition bookings_ok :: "booking list \<Rightarrow> bool" where
  "bookings_ok bs =
     (distinct (map bid bs) \<and>
      (\<forall>b \<in> set bs. 1 \<le> amount b) \<and>
      (\<forall>u e. totalBoothsForUser bs u e \<le> 6))"

text \<open>
  The states reached from a database without bookings by the booking handlers and by the
  deletion of exhibitions, with any principal, any arguments and any clock.
\<close>

inductive reachable :: "db \<Rightarrow> bool" where
  initial: "bookings s = [] \<Longrightarrow> reachable s"
| create: "reachable s \<Longrightarrow> reachable (snd (createBooking today s p exId t a))"
| update: "reachable s \<Longrightarrow> reachable (snd (updateBooking s p i t a))"
| delete: "reachable s \<Longrightarrow> reachable (snd (deleteBooking s p i))"
| deleteEx: "reachable s \<Longrightarrow> reachable (snd (deleteExhibition s i))"

text \<open>
  The ledger of an exhibition and a booth type: the remaining quota plus the booths of the
  stored bookings of that type.
\<close>

definition ledger :: "db \<Rightarrow> nat \<Rightarrow> string \<Rightarrow> int option" where
  "ledger s e t =
     (case exhibitions s e of
        None \<Rightarrow> None
      | Some ex \<Rightarrow> Some (quotaOf ex t + totalBoothsForType (bookings s) e t))"

section \<open>A small database\<close>

text \<open>
  One exhibition (identifier 1) that starts on day 100 with 11 small and 4 big booths, two
  members and an administrator, no bookings.
\<close>

definition alice :: principal where
  "alice = \<lparr>uid = 1, urole = Member\<rparr>"

definition bob :: principal where
  "bob = \<lparr>uid = 2, urole = Member\<rparr>"

definition carol :: principal where
  "carol = \<lparr>uid = 3, urole = Admin\<rparr>"

definition fair :: exhibition where
  "fair = \<lparr>startDate = 100, smallBoothQuota = 11, bigBoothQuota = 4\<rparr>"

definition db0 :: db where
  "db0 = \<lparr>exhibitions = [1 \<mapsto> fair], bookings = [], users = {1, 2, 3}\<rparr>"

definition small_booking :: "nat \<Rightarrow> int \<Rightarrow> booking" where
  "small_booking i a = \<lparr>bid = i, buser = 1, bexhibition = 1, boothType = ''small'', amount = a\<rparr>"

text \<open>The database after alice has booked \<open>a\<close> small booths, and then \<open>b\<close> more.\<close>

definition db1 :: "int \<Rightarrow> db" where
  "db1 a = \<lparr>exhibitions = [1 \<mapsto> fair\<lparr>smallBoothQuota := 11 - a\<rparr>],
            bookings = [small_booking 1 a], users = {1, 2, 3}\<rparr>"

definition db2 :: "int \<Rightarrow> int \<Rightarrow> db" where
  "db2 a b = \<lparr>exhibitions = [1 \<mapsto> fair\<lparr>smallBoothQuota := 11 - a - b\<rparr>],
              bookings = [small_booking 1 a, small_booking 2 b], users = {1, 2, 3}\<rparr>"

section \<open>Basic facts\<close>

lemma or_string_valid: "includesBoothType (Some t) \<Longrightarrow> or_string (Some t) x = t"
  by (auto simp: includesBoothType_def or_string_def)

lemma newObjectId_fresh: "b \<in> set bs \<Longrightarrow> bid b < newObjectId bs"
  by (induction bs) (auto simp: newObjectId_def)

lemma otherBookingsTotal_new:
  "bid doc = newObjectId bs \<Longrightarrow>
   otherBookingsTotal bs doc = totalBoothsForUser bs (buser doc) (bexhibition doc)"
proof -
  assume i: "bid doc = newObjectId bs"
  have "filter (\<lambda>b. buser b = buser doc \<and> bexhibition b = bexhibition doc \<and> bid b \<noteq> bid doc) bs =
        filter (\<lambda>b. buser b = buser doc \<and> bexhibition b = bexhibition doc) bs"
    using newObjectId_fresh [of _ bs] i by (intro filter_cong) fastforce+
  then show ?thesis
    by (simp add: otherBookingsTotal_def totalBoothsForUser_def sumAmount_def)
qed

lemma findOne_Some: "findOne P bs = Some b \<Longrightarrow> b \<in> set bs \<and> P b"
  by (induction bs) (auto split: if_splits)

lemma findOne_None: "findOne P bs = None \<longleftrightarrow> (\<forall>b \<in> set bs. \<not> P b)"
  by (induction bs) auto


lemma bid_inj:
  assumes "distinct (map bid bs)" and "x \<in> set bs" and "y \<in> set bs" and "bid x = bid y"
  shows "x = y"
proof -
  from assms(1) have "inj_on bid (set bs)"
    by (simp add: distinct_map)
  then show ?thesis
    using assms(2-4) by (simp add: inj_on_def)
qed

lemma findOne_unique:
  assumes "distinct (map bid bs)" and "b \<in> set bs" and "P b"
    and "\<And>x. P x \<Longrightarrow> bid x = bid b"
  shows "findOne P bs = Some b"
proof (cases "findOne P bs")
  case None
  with assms(2,3) show ?thesis
    by (simp add: findOne_None)
next
  case (Some x)
  then have x: "x \<in> set bs" and "P x"
    using findOne_Some by blast+
  then have "bid x = bid b"
    by (intro assms(4))
  with assms(1) x assms(2) have "x = b"
    by (rule bid_inj)
  with Some show ?thesis by simp
qed

lemma set_deleteOne:
  "distinct (map bid bs) \<Longrightarrow> b \<in> set bs \<Longrightarrow> set (deleteOne (bid b) bs) = set bs - {b}"
proof (induction bs)
  case Nil
  then show ?case by simp
next
  case (Cons x bs)
  show ?case
  proof (cases "bid x = bid b")
    case True
    have "x = b"
      by (rule bid_inj [OF Cons.prems(1) _ Cons.prems(2) True]) simp
    moreover from Cons.prems(1) have "x \<notin> set bs"
      by (simp add: image_iff) blast
    ultimately show ?thesis
      using True by simp
  next
    case False
    then have "b \<noteq> x" by blast
    with Cons.prems have b: "b \<in> set bs" and d: "distinct (map bid bs)" by simp_all
    from Cons.prems(1) have "x \<notin> set bs"
      by (simp add: image_iff) blast
    with False Cons.IH [OF d b] show ?thesis
      by auto
  qed
qed

lemma quotaOf_addQuota:
  "quotaOf (addQuota ex t n) t' =
     (if (t' = ''small'') = (t = ''small'') then quotaOf ex t' + n else quotaOf ex t')"
  by (simp add: quotaOf_def addQuota_def)

lemma findOne_by_id:
  assumes "distinct (map bid bs)" and "b \<in> set bs"
  shows "findOne (\<lambda>x. bid x = bid b) bs = Some b"
  using assms by (rule findOne_unique) simp_all

lemma findOne_ownQuery_owner:
  assumes "distinct (map bid bs)" and "b \<in> set bs" and "urole p = Admin \<or> uid p = buser b"
  shows "findOne (ownQuery p (bid b)) bs = Some b"
proof (rule findOne_unique [OF assms(1,2)])
  show "ownQuery p (bid b) b"
    using assms(3) by (auto simp: ownQuery_def)
  show "bid x = bid b" if "ownQuery p (bid b) x" for x
    using that by (simp add: ownQuery_def)
qed

lemma findOne_ownQuery_other:
  assumes "distinct (map bid bs)" and "b \<in> set bs" and "urole p \<noteq> Admin" and "uid p \<noteq> buser b"
  shows "findOne (ownQuery p (bid b)) bs = None"
proof -
  have "\<not> ownQuery p (bid b) x" if "x \<in> set bs" for x
  proof
    assume q: "ownQuery p (bid b) x"
    then have "bid x = bid b" by (simp add: ownQuery_def)
    with assms(1) that assms(2) have "x = b" by (rule bid_inj)
    with q assms(3,4) show False by (simp add: ownQuery_def)
  qed
  then show ?thesis
    by (simp add: findOne_None)
qed

lemma sumAmount_Nil: "sumAmount P [] = 0"
  by (simp add: sumAmount_def)

lemma sumAmount_Cons: "sumAmount P (b # bs) = (if P b then amount b else 0) + sumAmount P bs"
  by (simp add: sumAmount_def)

lemma sumAmount_append: "sumAmount P (bs @ cs) = sumAmount P bs + sumAmount P cs"
  by (simp add: sumAmount_def)

lemma sumAmount_absent:
  "(\<And>x. x \<in> set bs \<Longrightarrow> bid x \<noteq> i) \<Longrightarrow> sumAmount (\<lambda>x. P x \<and> bid x \<noteq> i) bs = sumAmount P bs"
  by (induction bs) (simp_all add: sumAmount_Nil sumAmount_Cons)

lemma deleteOne_absent: "(\<And>x. x \<in> set bs \<Longrightarrow> bid x \<noteq> i) \<Longrightarrow> deleteOne i bs = bs"
  by (induction bs) simp_all

lemma updateOne_absent: "(\<And>x. x \<in> set bs \<Longrightarrow> bid x \<noteq> bid d) \<Longrightarrow> updateOne d bs = bs"
  by (induction bs) simp_all

lemma distinct_bid_Cons:
  "distinct (map bid (x # bs)) \<Longrightarrow> distinct (map bid bs) \<and> (\<forall>y \<in> set bs. bid y \<noteq> bid x)"
  by (simp add: image_iff) metis

lemma sumAmount_exclude:
  "distinct (map bid bs) \<Longrightarrow> b \<in> set bs \<Longrightarrow>
   sumAmount (\<lambda>x. P x \<and> bid x \<noteq> bid b) bs = sumAmount P bs - (if P b then amount b else 0)"
proof (induction bs)
  case Nil
  then show ?case by simp
next
  case (Cons x bs)
  note d = distinct_bid_Cons [OF Cons.prems(1)]
  show ?case
  proof (cases "x = b")
    case True
    with d have "sumAmount (\<lambda>x. P x \<and> bid x \<noteq> bid b) bs = sumAmount P bs"
      by (intro sumAmount_absent) simp
    with True show ?thesis
      by (simp add: sumAmount_Cons)
  next
    case False
    with Cons.prems have b: "b \<in> set bs" by simp
    with d have "bid x \<noteq> bid b" by metis
    with Cons.IH [OF conjunct1 [OF d] b] show ?thesis
      by (simp add: sumAmount_Cons)
  qed
qed

lemma sumAmount_updateOne:
  "distinct (map bid bs) \<Longrightarrow> b \<in> set bs \<Longrightarrow> bid d = bid b \<Longrightarrow>
   sumAmount P (updateOne d bs) =
     sumAmount P bs - (if P b then amount b else 0) + (if P d then amount d else 0)"
proof (induction bs)
  case Nil
  then show ?case by simp
next
  case (Cons x bs)
  note dd = distinct_bid_Cons [OF Cons.prems(1)]
  show ?case
  proof (cases "x = b")
    case True
    with Cons.prems(3) show ?thesis
      by (simp add: sumAmount_Cons)
  next
    case False
    with Cons.prems have b: "b \<in> set bs" by simp
    with dd have "bid x \<noteq> bid b" by metis
    with Cons.IH [OF conjunct1 [OF dd] b Cons.prems(3)] Cons.prems(3) show ?thesis
      by (simp add: sumAmount_Cons)
  qed
qed

lemma map_bid_updateOne: "map bid (updateOne d bs) = map bid bs"
  by (induction bs) simp_all

lemma set_updateOne: "x \<in> set (updateOne d bs) \<Longrightarrow> x = d \<or> x \<in> set bs"
  by (induction bs) (auto split: if_splits)

lemma set_deleteOne_subset: "x \<in> set (deleteOne i bs) \<Longrightarrow> x \<in> set bs"
  by (induction bs) (auto split: if_splits)

lemma distinct_deleteOne: "distinct (map bid bs) \<Longrightarrow> distinct (map bid (deleteOne i bs))"
proof (induction bs)
  case Nil
  then show ?case by simp
next
  case (Cons x bs)
  note d = distinct_bid_Cons [OF Cons.prems]
  have "bid x \<notin> bid ` set (deleteOne i bs)"
    using d set_deleteOne_subset [of _ i bs] by (auto simp: image_iff)
  with Cons.IH d show ?case
    by simp
qed

lemma sumAmount_deleteOne_le:
  "(\<And>x. x \<in> set bs \<Longrightarrow> 0 \<le> amount x) \<Longrightarrow> sumAmount P (deleteOne i bs) \<le> sumAmount P bs"
proof (induction bs)
  case Nil
  then show ?case by simp
next
  case (Cons x bs)
  have "0 \<le> amount x" by (rule Cons.prems) simp
  moreover have "sumAmount P (deleteOne i bs) \<le> sumAmount P bs"
    by (rule Cons.IH) (simp add: Cons.prems)
  ultimately show ?case
    by (simp add: sumAmount_Cons)
qed

lemmas handler_defs =
  createBooking_def updateBooking_def deleteBooking_def getBooking_def ownQuery_def
  includesBoothType_def or_string_def or_number_def js_gt_def js_plus_def quotaOf_def
  addQuota_def saveExhibition_def saveBooking_def validateBooking_def preSave_def
  isModifiedAmount_def otherBookingsTotal_def totalBoothsForUser_def
  totalBoothsForType_def sumAmount_def newObjectId_def catchCreate_def Let_def

lemmas data_defs = db0_def db1_def db2_def fair_def alice_def bob_def carol_def small_booking_def

lemma cap_message_caught:
  "catchUpdate (HookError ''Total number of booths cannot exceed 6 per exhibition'') =
     Msg 400 ''Total number of booths cannot exceed 6 per exhibition''"
proof -
  have "prefix ''Total number of booths cannot exceed 6''
          ''Total number of booths cannot exceed 6 per exhibition''"
    by simp
  then have "sublist ''Total number of booths cannot exceed 6''
          ''Total number of booths cannot exceed 6 per exhibition''"
    by (rule prefix_imp_sublist)
  then show ?thesis
    by (simp add: catchUpdate_def messageIncludes_def)
qed

lemma validation_message_not_caught:
  "catchUpdate (ValidationError
      ''Booking validation failed: amount: Booking amount must be at least 1'') =
     Msg 500 ''Server Error''"
  by (simp add: catchUpdate_def messageIncludes_def sublist_Cons_right)

section \<open>Creating a booking\<close>

text \<open>
  C3. A creation request whose amount exceeds the live quota counter of the exhibition for
  the requested booth type is answered with 400 (BadRequest), and the database, bookings
  and quota counters alike, is returned as it was. The bookings already stored play no part:
  the comparison is with the counter of the exhibition record.
\<close>

theorem createBooking_over_quota:
  assumes "exhibitions s exId = Some ex" and "a > quotaOf ex t"
  shows "kind_of (fst (createBooking today s p exId (Some t) (Some a))) = BadRequest \<and>
         snd (createBooking today s p exId (Some t) (Some a)) = s"
proof (cases "includesBoothType (Some t)")
  case False
  then show ?thesis
    using assms by (simp add: createBooking_def kind_of_def)
next
  case True
  then show ?thesis
    using assms or_string_valid [OF True]
    by (simp add: createBooking_def Let_def js_gt_def kind_of_def)
qed

theorem createBooking_over_quota_witness:
  "exhibitions db0 1 = Some fair \<and> 12 > quotaOf fair ''small'' \<and>
   kind_of (fst (createBooking 50 db0 alice 1 (Some ''small'') (Some 12))) = BadRequest \<and>
   snd (createBooking 50 db0 alice 1 (Some ''small'') (Some 12)) = db0"
proof -
  have e: "exhibitions db0 1 = Some fair" by (simp add: db0_def)
  have q: "12 > quotaOf fair ''small''" by (simp add: quotaOf_def fair_def)
  show ?thesis
    using e q createBooking_over_quota [OF e q, of 50 alice] by simp
qed

text \<open>
  C4. For a creation request by principal \<open>p\<close> on an existing exhibition with amount
  \<open>a\<close>: when the booths that \<open>p\<close> already holds on the exhibition plus \<open>a\<close> exceed 6, the
  answer is 400 (BadRequest) and nothing changes; when they are at most 6 and the other
  conditions of a creation hold (a booth type of small or big, an exhibition that has not
  started and whose two stored counters are not negative, an amount of at least 1 and within
  the quota), the answer is 201, the booking is stored and the quota counter of its type is
  lowered by \<open>a\<close>. The witness runs the creations of 3, 3 and 1 booths: 201, 201, then 400.
\<close>

theorem createBooking_cap:
  assumes "exhibitions s exId = Some ex"
  shows "(totalBoothsForUser (bookings s) (uid p) exId + a > 6 \<longrightarrow>
            kind_of (fst (createBooking today s p exId reqBoothType (Some a))) = BadRequest \<and>
            snd (createBooking today s p exId reqBoothType (Some a)) = s) \<and>
         (totalBoothsForUser (bookings s) (uid p) exId + a \<le> 6 \<longrightarrow>
            includesBoothType (Some t) \<longrightarrow> today \<le> startDate ex \<longrightarrow>
            1 \<le> a \<longrightarrow> a \<le> quotaOf ex t \<longrightarrow>
            0 \<le> smallBoothQuota ex \<longrightarrow> 0 \<le> bigBoothQuota ex \<longrightarrow>
            status (fst (createBooking today s p exId (Some t) (Some a))) = 201 \<and>
            snd (createBooking today s p exId (Some t) (Some a)) =
              s\<lparr>exhibitions := (exhibitions s)(exId \<mapsto> addQuota ex t (- a)),
                bookings := bookings s @
                  [\<lparr>bid = newObjectId (bookings s), buser = uid p, bexhibition = exId, boothType = t, amount = a\<rparr>]\<rparr>)"
proof (intro conjI impI)
  assume over: "totalBoothsForUser (bookings s) (uid p) exId + a > 6"
  show "kind_of (fst (createBooking today s p exId reqBoothType (Some a))) = BadRequest"
    using assms over
    by (simp add: createBooking_def Let_def js_plus_def kind_of_def)
  show "snd (createBooking today s p exId reqBoothType (Some a)) = s"
    using assms over
    by (simp add: createBooking_def Let_def js_plus_def)
next
  assume h: "totalBoothsForUser (bookings s) (uid p) exId + a \<le> 6"
    "includesBoothType (Some t)" "today \<le> startDate ex" "1 \<le> a" "a \<le> quotaOf ex t"
    "0 \<le> smallBoothQuota ex" "0 \<le> bigBoothQuota ex"
  let ?doc = "\<lparr>bid = newObjectId (bookings s), buser = uid p, bexhibition = exId, boothType = t, amount = a\<rparr>"
  have others: "otherBookingsTotal (bookings s) ?doc = totalBoothsForUser (bookings s) (uid p) exId"
    by (simp add: otherBookingsTotal_new)
  have sv: "saveBooking None ?doc (bookings s) = Inr (bookings s @ [?doc])"
    using h others
    by (auto simp: saveBooking_def validateBooking_def preSave_def isModifiedAmount_def
        includesBoothType_def Let_def)
  have se: "saveExhibition exId (addQuota ex t (- a)) s' =
              Inr (s'\<lparr>exhibitions := (exhibitions s')(exId \<mapsto> addQuota ex t (- a))\<rparr>)" for s'
    using h by (auto simp: saveExhibition_def addQuota_def quotaOf_def)
  have run: "createBooking today s p exId (Some t) (Some a) =
     (Data 201 (findOne (\<lambda>b. bid b = newObjectId (bookings s)) (bookings s @ [?doc])),
      s\<lparr>exhibitions := (exhibitions s)(exId \<mapsto> addQuota ex t (- a)),
        bookings := bookings s @ [?doc]\<rparr>)"
    using assms h or_string_valid [OF h(2)]
    by (simp add: createBooking_def Let_def js_gt_def js_plus_def sv se)
  show "status (fst (createBooking today s p exId (Some t) (Some a))) = 201"
    by (simp add: run)
  show "snd (createBooking today s p exId (Some t) (Some a)) =
          s\<lparr>exhibitions := (exhibitions s)(exId \<mapsto> addQuota ex t (- a)),
            bookings := bookings s @ [?doc]\<rparr>"
    by (simp add: run)
qed


theorem createBooking_cap_witness:
  "exhibitions db0 1 = Some fair \<and>
   status (fst (createBooking 50 db0 alice 1 (Some ''small'') (Some 3))) = 201 \<and>
   snd (createBooking 50 db0 alice 1 (Some ''small'') (Some 3)) = db1 3 \<and>
   status (fst (createBooking 50 (db1 3) alice 1 (Some ''small'') (Some 3))) = 201 \<and>
   snd (createBooking 50 (db1 3) alice 1 (Some ''small'') (Some 3)) = db2 3 3 \<and>
   totalBoothsForUser (bookings (db2 3 3)) (uid alice) 1 + 1 > 6 \<and>
   kind_of (fst (createBooking 50 (db2 3 3) alice 1 (Some ''small'') (Some 1))) = BadRequest \<and>
   snd (createBooking 50 (db2 3 3) alice 1 (Some ''small'') (Some 1)) = db2 3 3"
proof -
  have e0: "exhibitions db0 1 = Some fair"
    by (simp add: db0_def)
  have e1: "exhibitions (db1 3) 1 = Some (fair\<lparr>smallBoothQuota := 8\<rparr>)"
    by (simp add: db1_def)
  have e2: "exhibitions (db2 3 3) 1 = Some (fair\<lparr>smallBoothQuota := 5\<rparr>)"
    by (simp add: db2_def)
  have first:
    "status (fst (createBooking 50 db0 alice 1 (Some ''small'') (Some 3))) = 201 \<and>
     snd (createBooking 50 db0 alice 1 (Some ''small'') (Some 3)) = db1 3"
    using createBooking_cap [OF e0, where p = alice and a = 3 and today = 50 and t = "''small''"]
    by (simp add: db0_def db1_def alice_def fair_def totalBoothsForUser_def sumAmount_def
        includesBoothType_def quotaOf_def addQuota_def small_booking_def newObjectId_def)
  have second:
    "status (fst (createBooking 50 (db1 3) alice 1 (Some ''small'') (Some 3))) = 201 \<and>
     snd (createBooking 50 (db1 3) alice 1 (Some ''small'') (Some 3)) = db2 3 3"
    using createBooking_cap [OF e1, where p = alice and a = 3 and today = 50 and t = "''small''"]
    by (simp add: db1_def db2_def alice_def fair_def totalBoothsForUser_def sumAmount_def
        includesBoothType_def quotaOf_def addQuota_def small_booking_def newObjectId_def)
  have over: "totalBoothsForUser (bookings (db2 3 3)) (uid alice) 1 + 1 > 6"
    by (simp add: db2_def alice_def totalBoothsForUser_def sumAmount_def small_booking_def)
  have third:
    "kind_of (fst (createBooking 50 (db2 3 3) alice 1 (Some ''small'') (Some 1))) = BadRequest \<and>
     snd (createBooking 50 (db2 3 3) alice 1 (Some ''small'') (Some 1)) = db2 3 3"
    using createBooking_cap [OF e2, where p = alice and a = 1 and today = 50
        and reqBoothType = "Some ''small''"] over
    by simp
  show ?thesis
    using e0 first second over third by simp
qed

section \<open>Deleting a booking\<close>

text \<open>
  C9. For a deletion that finds its booking \<open>b\<close>: when the exhibition of \<open>b\<close> is missing, the
  answer is 200 and the booking is removed, with no change to any exhibition; when the
  exhibition exists and the deletion succeeds, the counter of the booth type of \<open>b\<close> is raised
  by exactly the amount of \<open>b\<close>, the other counter keeps its value, and the booking is removed.
  The deletion does succeed when the stored counters and the amount are not negative. With
  unique identifiers the booking removed is \<open>b\<close> and no other.
\<close>

theorem deleteBooking_restores_quota:
  assumes "findOne (ownQuery p i) (bookings s) = Some b"
  shows "(exhibitions s (bexhibition b) = None \<longrightarrow>
            deleteBooking s p i =
              (Msg 200 ''Booking deleted successfully'',
               s\<lparr>bookings := deleteOne (bid b) (bookings s)\<rparr>)) \<and>
         (\<forall>ex. exhibitions s (bexhibition b) = Some ex \<longrightarrow>
            status (fst (deleteBooking s p i)) = 200 \<longrightarrow>
              snd (deleteBooking s p i) =
                s\<lparr>exhibitions :=
                    (exhibitions s)(bexhibition b \<mapsto> addQuota ex (boothType b) (amount b)),
                  bookings := deleteOne (bid b) (bookings s)\<rparr> \<and>
              quotaOf (addQuota ex (boothType b) (amount b)) (boothType b) =
                quotaOf ex (boothType b) + amount b \<and>
              (\<forall>t. (t = ''small'') \<noteq> (boothType b = ''small'') \<longrightarrow>
                 quotaOf (addQuota ex (boothType b) (amount b)) t = quotaOf ex t)) \<and>
         (\<forall>ex. exhibitions s (bexhibition b) = Some ex \<longrightarrow>
            0 \<le> smallBoothQuota ex \<longrightarrow> 0 \<le> bigBoothQuota ex \<longrightarrow> 0 \<le> amount b \<longrightarrow>
              status (fst (deleteBooking s p i)) = 200) \<and>
         (distinct (map bid (bookings s)) \<longrightarrow>
            set (deleteOne (bid b) (bookings s)) = set (bookings s) - {b})"
proof (intro conjI allI impI)
  assume "exhibitions s (bexhibition b) = None"
  then show "deleteBooking s p i =
      (Msg 200 ''Booking deleted successfully'', s\<lparr>bookings := deleteOne (bid b) (bookings s)\<rparr>)"
    using assms by (simp add: deleteBooking_def)
next
  fix ex
  assume ex: "exhibitions s (bexhibition b) = Some ex"
    and ok: "status (fst (deleteBooking s p i)) = 200"
  show "snd (deleteBooking s p i) =
          s\<lparr>exhibitions := (exhibitions s)(bexhibition b \<mapsto> addQuota ex (boothType b) (amount b)),
            bookings := deleteOne (bid b) (bookings s)\<rparr>"
  proof (cases "saveExhibition (bexhibition b) (addQuota ex (boothType b) (amount b)) s")
    case (Inl e)
    with assms ex ok show ?thesis by (simp add: deleteBooking_def)
  next
    case (Inr s1)
    then have "s1 = s\<lparr>exhibitions :=
        (exhibitions s)(bexhibition b \<mapsto> addQuota ex (boothType b) (amount b))\<rparr>"
      by (simp add: saveExhibition_def split: if_splits)
    with Inr assms ex show ?thesis by (simp add: deleteBooking_def)
  qed
  show "quotaOf (addQuota ex (boothType b) (amount b)) (boothType b) =
          quotaOf ex (boothType b) + amount b"
    by (simp add: quotaOf_addQuota)
  fix t
  assume "(t = ''small'') \<noteq> (boothType b = ''small'')"
  then show "quotaOf (addQuota ex (boothType b) (amount b)) t = quotaOf ex t"
    by (simp add: quotaOf_addQuota)
next
  fix ex
  assume "exhibitions s (bexhibition b) = Some ex" "0 \<le> smallBoothQuota ex"
    "0 \<le> bigBoothQuota ex" "0 \<le> amount b"
  then show "status (fst (deleteBooking s p i)) = 200"
    using assms by (simp add: deleteBooking_def saveExhibition_def addQuota_def)
next
  assume "distinct (map bid (bookings s))"
  then show "set (deleteOne (bid b) (bookings s)) = set (bookings s) - {b}"
    using findOne_Some [OF assms] by (simp add: set_deleteOne)
qed

theorem deleteBooking_restores_quota_witness:
  "findOne (ownQuery alice 1) (bookings (db1 3)) = Some (small_booking 1 3) \<and>
   exhibitions (db1 3) 1 = Some (fair\<lparr>smallBoothQuota := 8\<rparr>) \<and>
   status (fst (deleteBooking (db1 3) alice 1)) = 200 \<and>
   snd (deleteBooking (db1 3) alice 1) = db0 \<and>
   deleteBooking ((db1 3)\<lparr>exhibitions := Map.empty\<rparr>) alice 1 =
     (Msg 200 ''Booking deleted successfully'', db0\<lparr>exhibitions := Map.empty\<rparr>)"
proof -
  have f: "findOne (ownQuery alice 1) (bookings (db1 3)) = Some (small_booking 1 3)"
    by (simp add: db1_def ownQuery_def alice_def small_booking_def)
  have f': "findOne (ownQuery alice 1) (bookings ((db1 3)\<lparr>exhibitions := Map.empty\<rparr>)) =
              Some (small_booking 1 3)"
    by (simp add: db1_def ownQuery_def alice_def small_booking_def)
  have e: "exhibitions (db1 3) 1 = Some (fair\<lparr>smallBoothQuota := 8\<rparr>)"
    by (simp add: db1_def)
  have b: "bexhibition (small_booking 1 3) = 1" "0 \<le> amount (small_booking 1 3)"
    "0 \<le> smallBoothQuota (fair\<lparr>smallBoothQuota := 8\<rparr>)"
    "0 \<le> bigBoothQuota (fair\<lparr>smallBoothQuota := 8\<rparr>)"
    by (simp_all add: small_booking_def fair_def)
  note T = deleteBooking_restores_quota [OF f]
  have st: "status (fst (deleteBooking (db1 3) alice 1)) = 200"
    using T e b by metis
  have sn: "snd (deleteBooking (db1 3) alice 1) =
      (db1 3)\<lparr>exhibitions := (exhibitions (db1 3))(bexhibition (small_booking 1 3) \<mapsto>
          addQuota (fair\<lparr>smallBoothQuota := 8\<rparr>) (boothType (small_booking 1 3))
            (amount (small_booking 1 3))),
        bookings := deleteOne (bid (small_booking 1 3)) (bookings (db1 3))\<rparr>"
    using T e b(1) st by metis
  have "snd (deleteBooking (db1 3) alice 1) = db0"
    unfolding sn by (simp add: db1_def db0_def fair_def small_booking_def addQuota_def)
  moreover have "deleteBooking ((db1 3)\<lparr>exhibitions := Map.empty\<rparr>) alice 1 =
     (Msg 200 ''Booking deleted successfully'', db0\<lparr>exhibitions := Map.empty\<rparr>)"
  proof -
    have "exhibitions ((db1 3)\<lparr>exhibitions := Map.empty\<rparr>) (bexhibition (small_booking 1 3)) = None"
      by simp
    with deleteBooking_restores_quota [OF f']
    have "deleteBooking ((db1 3)\<lparr>exhibitions := Map.empty\<rparr>) alice 1 =
        (Msg 200 ''Booking deleted successfully'',
         (db1 3)\<lparr>exhibitions := Map.empty,
           bookings := deleteOne (bid (small_booking 1 3)) (bookings (db1 3))\<rparr>)"
      by simp
    then show ?thesis
      by (simp add: db1_def db0_def small_booking_def)
  qed
  ultimately show ?thesis
    using f e st by simp
qed

section \<open>Ownership\<close>

text \<open>
  C7, as the handlers have it. Let \<open>b\<close> be a stored booking whose owner's user record
  exists, and \<open>m\<close> a member who is not the owner. Reading \<open>b\<close> as \<open>m\<close> is refused with 401
  (not authorized). Updating or deleting \<open>b\<close> as \<open>m\<close> is answered with 404 (booking not
  found), not with a refusal, and changes nothing: the two handlers put the owner into the
  query. An administrator reads \<open>b\<close> with 200, and an update or a deletion by an
  administrator has exactly the outcome that the same request of the owner has: the
  deletion succeeds when the stored counters and the amount are not negative, the update
  is still subject to the checks of booth type, quota and cap.
\<close>

theorem booking_access_control:
  assumes "distinct (map bid (bookings s))" and "b \<in> set (bookings s)"
    and "buser b \<in> users s"
    and "urole m = Member" and "uid m \<noteq> buser b"
    and "urole adm = Admin" and "uid own = buser b"
  shows "getBooking s m (bid b) = Msg 401 ''Not authorized to access this booking'' \<and>
         updateBooking s m (bid b) t a = (Msg 404 ''Booking not found'', s) \<and>
         deleteBooking s m (bid b) = (Msg 404 ''Booking not found'', s) \<and>
         getBooking s adm (bid b) = Data 200 (Some b) \<and>
         updateBooking s adm (bid b) t a = updateBooking s own (bid b) t a \<and>
         deleteBooking s adm (bid b) = deleteBooking s own (bid b) \<and>
         ((\<forall>ex. exhibitions s (bexhibition b) = Some ex \<longrightarrow>
             0 \<le> smallBoothQuota ex \<and> 0 \<le> bigBoothQuota ex) \<longrightarrow> 0 \<le> amount b \<longrightarrow>
            status (fst (deleteBooking s adm (bid b))) = 200)"
proof -
  note byid = findOne_by_id [OF assms(1,2)]
  have other: "findOne (ownQuery m (bid b)) (bookings s) = None"
    using assms(1,2) _ assms(5) by (rule findOne_ownQuery_other) (simp add: assms(4))
  have adm: "findOne (ownQuery adm (bid b)) (bookings s) = Some b"
    using assms(1,2) by (rule findOne_ownQuery_owner) (simp add: assms(6))
  have own: "findOne (ownQuery own (bid b)) (bookings s) = Some b"
    using assms(1,2) by (rule findOne_ownQuery_owner) (simp add: assms(7))
  have 1: "getBooking s m (bid b) = Msg 401 ''Not authorized to access this booking''"
    using assms(3,4,5) by (simp add: getBooking_def byid)
  have 2: "updateBooking s m (bid b) t a = (Msg 404 ''Booking not found'', s)"
    by (simp add: updateBooking_def other)
  have 3: "deleteBooking s m (bid b) = (Msg 404 ''Booking not found'', s)"
    by (simp add: deleteBooking_def other)
  have 4: "getBooking s adm (bid b) = Data 200 (Some b)"
    using assms(3,6) by (simp add: getBooking_def byid)
  have 5: "updateBooking s adm (bid b) t a = updateBooking s own (bid b) t a"
    by (simp add: updateBooking_def adm own)
  have 6: "deleteBooking s adm (bid b) = deleteBooking s own (bid b)"
    by (simp add: deleteBooking_def adm own)
  have 7: "status (fst (deleteBooking s adm (bid b))) = 200"
    if q: "\<forall>ex. exhibitions s (bexhibition b) = Some ex \<longrightarrow>
             0 \<le> smallBoothQuota ex \<and> 0 \<le> bigBoothQuota ex" and n: "0 \<le> amount b"
  proof (cases "exhibitions s (bexhibition b)")
    case None
    then show ?thesis by (simp add: deleteBooking_def adm)
  next
    case (Some ex)
    with q have "0 \<le> smallBoothQuota ex" "0 \<le> bigBoothQuota ex" by simp_all
    with Some n show ?thesis
      by (simp add: deleteBooking_def adm saveExhibition_def addQuota_def)
  qed
  from 1 2 3 4 5 6 7 show ?thesis by blast
qed

theorem booking_access_control_witness:
  "getBooking (db1 3) bob 1 = Msg 401 ''Not authorized to access this booking'' \<and>
   updateBooking (db1 3) bob 1 (Some ''small'') (Some 2) = (Msg 404 ''Booking not found'', db1 3) \<and>
   deleteBooking (db1 3) bob 1 = (Msg 404 ''Booking not found'', db1 3) \<and>
   getBooking (db1 3) carol 1 = Data 200 (Some (small_booking 1 3)) \<and>
   updateBooking (db1 3) carol 1 (Some ''small'') (Some 2) =
     updateBooking (db1 3) alice 1 (Some ''small'') (Some 2) \<and>
   status (fst (deleteBooking (db1 3) carol 1)) = 200"
proof -
  have h: "distinct (map bid (bookings (db1 3)))" "small_booking 1 3 \<in> set (bookings (db1 3))"
    "buser (small_booking 1 3) \<in> users (db1 3)" "urole bob = Member"
    "uid bob \<noteq> buser (small_booking 1 3)" "urole carol = Admin"
    "uid alice = buser (small_booking 1 3)"
    by (simp_all add: db1_def small_booking_def alice_def bob_def carol_def)
  have i: "bid (small_booking 1 3) = 1" "0 \<le> amount (small_booking 1 3)"
    "\<forall>ex. exhibitions (db1 3) (bexhibition (small_booking 1 3)) = Some ex \<longrightarrow>
       0 \<le> smallBoothQuota ex \<and> 0 \<le> bigBoothQuota ex"
    by (auto simp: db1_def small_booking_def fair_def)
  show ?thesis
    using booking_access_control [OF h, of "Some ''small''" "Some 2"] i(2,3)
    unfolding i(1) by blast
qed

theorem member_update_delete_counterexample:
  "small_booking 1 3 \<in> set (bookings (db1 3)) \<and> urole bob = Member \<and>
   uid bob \<noteq> buser (small_booking 1 3) \<and>
   kind_of (fst (updateBooking (db1 3) bob 1 (Some ''small'') (Some 2))) = NotFound \<and>
   kind_of (fst (updateBooking (db1 3) bob 1 (Some ''small'') (Some 2))) \<noteq> Forbidden \<and>
   kind_of (fst (deleteBooking (db1 3) bob 1)) = NotFound \<and>
   kind_of (fst (deleteBooking (db1 3) bob 1)) \<noteq> Forbidden"
  by (simp add: db1_def small_booking_def bob_def updateBooking_def deleteBooking_def
      ownQuery_def kind_of_def)

section \<open>Updating a booking\<close>

text \<open>
  C8, as the handler has it. The booth type of an update request is required: when the
  booking is found and the request's \<^verbatim>\<open>boothType\<close> is absent, or is not small or big, the
  answer is 400 (BadRequest) and nothing changes, whatever booth type the booking has. An
  update that succeeds therefore carries a booth type of small or big, and that is the
  booth type the booking gets; the existing booth type is never the fallback.
\<close>

theorem updateBooking_boothType_required:
  assumes "findOne (ownQuery p i) (bookings s) = Some b"
  shows "(reqBoothType \<noteq> Some ''small'' \<longrightarrow> reqBoothType \<noteq> Some ''big'' \<longrightarrow>
            updateBooking s p i reqBoothType reqAmount =
              (Msg 400 ''Booth type must be either small or big'', s)) \<and>
         (status (fst (updateBooking s p i reqBoothType reqAmount)) = 200 \<longrightarrow>
            (reqBoothType = Some ''small'' \<or> reqBoothType = Some ''big'') \<and>
            (\<exists>t. reqBoothType = Some t \<and>
               bookings (snd (updateBooking s p i reqBoothType reqAmount)) =
                 updateOne (b\<lparr>amount := or_number reqAmount (amount b), boothType := t\<rparr>)
                   (bookings s)))"
proof (intro conjI impI)
  assume "reqBoothType \<noteq> Some ''small''" "reqBoothType \<noteq> Some ''big''"
  then show "updateBooking s p i reqBoothType reqAmount =
      (Msg 400 ''Booth type must be either small or big'', s)"
    using assms by (simp add: updateBooking_def includesBoothType_def)
next
  assume ok: "status (fst (updateBooking s p i reqBoothType reqAmount)) = 200"
  show v: "reqBoothType = Some ''small'' \<or> reqBoothType = Some ''big''"
  proof (rule ccontr)
    assume "\<not> ?thesis"
    then have "updateBooking s p i reqBoothType reqAmount =
      (Msg 400 ''Booth type must be either small or big'', s)"
      using assms by (simp add: updateBooking_def includesBoothType_def)
    with ok show False by simp
  qed
  then obtain t where t: "reqBoothType = Some t" "includesBoothType (Some t)"
    by (auto simp: includesBoothType_def)
  have nt: "or_string (Some t) (boothType b) = t"
    using t(2) by (rule or_string_valid)
  have "bookings (snd (updateBooking s p i (Some t) reqAmount)) =
          updateOne (b\<lparr>amount := or_number reqAmount (amount b), boothType := t\<rparr>) (bookings s)"
    using ok assms t nt
    by (auto simp: updateBooking_def Let_def saveBooking_def saveExhibition_def catchUpdate_def
        split: option.splits if_splits sum.splits)
  with t(1) show "\<exists>t. reqBoothType = Some t \<and>
       bookings (snd (updateBooking s p i reqBoothType reqAmount)) =
         updateOne (b\<lparr>amount := or_number reqAmount (amount b), boothType := t\<rparr>) (bookings s)"
    by simp
qed

theorem updateBooking_boothType_required_witness:
  "findOne (ownQuery alice 1) (bookings (db1 3)) = Some (small_booking 1 3) \<and>
   updateBooking (db1 3) alice 1 None (Some 2) =
     (Msg 400 ''Booth type must be either small or big'', db1 3) \<and>
   status (fst (updateBooking (db1 3) alice 1 (Some ''big'') (Some 2))) = 200 \<and>
   bookings (snd (updateBooking (db1 3) alice 1 (Some ''big'') (Some 2))) =
     [\<lparr>bid = 1, buser = 1, bexhibition = 1, boothType = ''big'', amount = 2\<rparr>]"
proof -
  have f: "findOne (ownQuery alice 1) (bookings (db1 3)) = Some (small_booking 1 3)"
    by (simp add: data_defs ownQuery_def)
  have ok: "status (fst (updateBooking (db1 3) alice 1 (Some ''big'') (Some 2))) = 200"
    by (simp add: handler_defs data_defs)
  have "updateOne ((small_booking 1 3)\<lparr>amount := or_number (Some 2) (amount (small_booking 1 3)),
            boothType := ''big''\<rparr>) (bookings (db1 3)) =
          [\<lparr>bid = 1, buser = 1, bexhibition = 1, boothType = ''big'', amount = 2\<rparr>]"
    by (simp add: data_defs or_number_def)
  then show ?thesis
    using updateBooking_boothType_required [OF f, of None "Some 2"]
      updateBooking_boothType_required [OF f, of "Some ''big''" "Some 2"] f ok
    by auto
qed

theorem updateBooking_omitted_boothType_counterexample:
  "findOne (ownQuery alice 1) (bookings (db1 3)) = Some (small_booking 1 3) \<and>
   boothType (small_booking 1 3) = ''small'' \<and>
   updateBooking (db1 3) alice 1 None (Some 2) =
     (Msg 400 ''Booth type must be either small or big'', db1 3) \<and>
   kind_of (fst (updateBooking (db1 3) alice 1 None (Some 2))) = BadRequest \<and>
   status (fst (updateBooking (db1 3) alice 1 (Some ''small'') (Some 2))) = 200"
  by (simp add: handler_defs data_defs kind_of_def)

text \<open>
  What an update does once its booking and exhibition are found and the requested booth
  type is valid. The old reservation is first added back to the counter of the old type;
  if the counter of the requested type is then below the new amount, the answer is 400 and
  nothing changes. An update that succeeds has passed that comparison, and its state holds
  the exhibition with the old reservation released and the new one taken, and the booking
  with the new amount and booth type.
\<close>

lemma updateBooking_commit:
  assumes f: "findOne (ownQuery p i) (bookings s) = Some b"
    and t: "includesBoothType (Some t)"
    and ex: "exhibitions s (bexhibition b) = Some ex"
  shows "(quotaOf (addQuota ex (boothType b) (amount b)) t < or_number a (amount b) \<longrightarrow>
            updateBooking s p i (Some t) a =
              (Msg 400 (''Not enough '' @ t @ '' booths available''), s)) \<and>
         (status (fst (updateBooking s p i (Some t) a)) = 200 \<longrightarrow>
            or_number a (amount b) \<le> quotaOf (addQuota ex (boothType b) (amount b)) t \<and>
            snd (updateBooking s p i (Some t) a) =
              s\<lparr>exhibitions := (exhibitions s)(bexhibition b \<mapsto>
                    addQuota (addQuota ex (boothType b) (amount b)) t (- or_number a (amount b))),
                bookings := updateOne (b\<lparr>amount := or_number a (amount b), boothType := t\<rparr>)
                              (bookings s)\<rparr>)"
proof -
  let ?n = "or_number a (amount b)"
  let ?ex1 = "addQuota ex (boothType b) (amount b)"
  let ?doc = "b\<lparr>amount := ?n, boothType := t\<rparr>"
  note nt = or_string_valid [OF t, of "boothType b"]
  have low: "updateBooking s p i (Some t) a =
      (Msg 400 (''Not enough '' @ t @ '' booths available''), s)" if "quotaOf ?ex1 t < ?n"
    using f t ex nt that by (simp add: updateBooking_def Let_def)
  have run: "updateBooking s p i (Some t) a =
      (case saveExhibition (bexhibition b) (addQuota ?ex1 t (- ?n)) s of
         Inl e \<Rightarrow> (catchUpdate e, s)
       | Inr s1 \<Rightarrow>
           (case saveBooking (Some b) ?doc (bookings s1) of
              Inl e \<Rightarrow> (catchUpdate e, s1)
            | Inr bs \<Rightarrow> (Data 200 (findOne (\<lambda>x. bid x = bid b) bs), s1\<lparr>bookings := bs\<rparr>)))"
    if "\<not> quotaOf ?ex1 t < ?n"
    using f t ex nt that by (simp add: updateBooking_def Let_def cong: sum.case_cong)
  have c: "status (catchUpdate e) \<noteq> 200" for e
    by (simp add: catchUpdate_def)
  have ok: "?n \<le> quotaOf ?ex1 t \<and>
      snd (updateBooking s p i (Some t) a) =
        s\<lparr>exhibitions := (exhibitions s)(bexhibition b \<mapsto> addQuota ?ex1 t (- ?n)),
          bookings := updateOne ?doc (bookings s)\<rparr>"
    if st: "status (fst (updateBooking s p i (Some t) a)) = 200"
  proof -
    have q: "\<not> quotaOf ?ex1 t < ?n"
      using st low by fastforce
    show ?thesis
    proof (cases "saveExhibition (bexhibition b) (addQuota ?ex1 t (- ?n)) s")
      case (Inl e)
      with st run [OF q] c show ?thesis by simp
    next
      case (Inr s1)
      then have s1: "s1 = s\<lparr>exhibitions := (exhibitions s)(bexhibition b \<mapsto> addQuota ?ex1 t (- ?n))\<rparr>"
        by (simp add: saveExhibition_def split: if_splits)
      show ?thesis
      proof (cases "saveBooking (Some b) ?doc (bookings s1)")
        case (Inl e)
        with st run [OF q] Inr c show ?thesis by simp
      next
        case bs: (Inr bs)
        then have "bs = updateOne ?doc (bookings s)"
          by (simp add: saveBooking_def s1 split: option.splits)
        with run [OF q] Inr bs q show ?thesis
          by (simp add: s1)
      qed
    qed
  qed
  from low ok show ?thesis by blast
qed

text \<open>
  C5. The update handler saves the exhibition before it saves the booking, and the cap is
  only checked by the hook of the second save. Alice holds 2 and 4 small booths (reached by
  two creations); the exhibition has 5 small and 4 big booths left. Her update of the first
  booking to 3 big booths is rejected with 400 for the cap (4 + 3 > 6). The bookings are
  unchanged, but the counters are now 7 small and 1 big: the failed update has changed the
  state.
\<close>

theorem updateBooking_cap_rejection_changes_quota:
  "snd (createBooking 50 (snd (createBooking 50 db0 alice 1 (Some ''small'') (Some 2)))
          alice 1 (Some ''small'') (Some 4)) = db2 2 4 \<and>
   exhibitions (db2 2 4) 1 = Some \<lparr>startDate = 100, smallBoothQuota = 5, bigBoothQuota = 4\<rparr> \<and>
   fst (updateBooking (db2 2 4) alice 1 (Some ''big'') (Some 3)) =
     Msg 400 ''Total number of booths cannot exceed 6 per exhibition'' \<and>
   bookings (snd (updateBooking (db2 2 4) alice 1 (Some ''big'') (Some 3))) = bookings (db2 2 4) \<and>
   exhibitions (snd (updateBooking (db2 2 4) alice 1 (Some ''big'') (Some 3))) 1 =
     Some \<lparr>startDate = 100, smallBoothQuota = 7, bigBoothQuota = 1\<rparr>"
  by (simp add: handler_defs data_defs cap_message_caught)

section \<open>Conservation of quota\<close>

text \<open>
  The ledger of an exhibition and a booth type of small or big is kept by every creation
  on an exhibition whose stored counters are not negative, and by every deletion and every
  update that succeeds on a collection with unique identifiers whose booth types are small
  or big.
\<close>

lemma sumAmount_deleteOne:
  "distinct (map bid bs) \<Longrightarrow> b \<in> set bs \<Longrightarrow>
   sumAmount P (deleteOne (bid b) bs) = sumAmount P bs - (if P b then amount b else 0)"
proof (induction bs)
  case Nil
  then show ?case by simp
next
  case (Cons x bs)
  note d = distinct_bid_Cons [OF Cons.prems(1)]
  show ?case
  proof (cases "x = b")
    case True
    then show ?thesis
      by (simp add: sumAmount_Cons)
  next
    case False
    with Cons.prems have b: "b \<in> set bs" by simp
    with d have "bid x \<noteq> bid b" by metis
    with Cons.IH [OF conjunct1 [OF d] b] show ?thesis
      by (simp add: sumAmount_Cons)
  qed
qed

lemma quotaOf_addQuota_valid:
  assumes "includesBoothType (Some t)" and "includesBoothType (Some k)"
  shows "quotaOf (addQuota ex t n) k = quotaOf ex k + (if t = k then n else 0)"
  using assms by (auto simp: includesBoothType_def quotaOf_def addQuota_def)

lemma createBooking_cases:
  assumes nn: "\<And>ex. exhibitions s exId = Some ex \<Longrightarrow>
                 0 \<le> smallBoothQuota ex \<and> 0 \<le> bigBoothQuota ex"
  shows "snd (createBooking today s p exId t a) = s \<or>
   (\<exists>ex tt n. exhibitions s exId = Some ex \<and> includesBoothType (Some tt) \<and>
      snd (createBooking today s p exId t a) =
        s\<lparr>exhibitions := (exhibitions s)(exId \<mapsto> addQuota ex tt (- n)),
          bookings := bookings s @
            [\<lparr>bid = newObjectId (bookings s), buser = uid p, bexhibition = exId,
              boothType = tt, amount = n\<rparr>]\<rparr>)"
proof (cases "exhibitions s exId")
  case None
  then show ?thesis by (simp add: createBooking_def)
next
  case (Some ex)
  show ?thesis
  proof (cases "includesBoothType t")
    case False
    with Some have "snd (createBooking today s p exId t a) = s"
      by (simp add: createBooking_def)
    then show ?thesis ..
  next
    case True
    then obtain tt where t: "t = Some tt" "includesBoothType (Some tt)"
      by (auto simp: includesBoothType_def)
    note nt = or_string_valid [OF t(2), of "[]"]
    show ?thesis
    proof (cases a)
      case None
      with Some t nt have "snd (createBooking today s p exId t a) = s"
        by (simp add: createBooking_def Let_def js_gt_def js_plus_def)
      then show ?thesis ..
    next
      case n: (Some n)
      show ?thesis
      proof (cases "n \<le> quotaOf ex tt")
        case False
        with Some t nt n have "snd (createBooking today s p exId t a) = s"
          by (simp add: createBooking_def Let_def js_gt_def)
        then show ?thesis ..
      next
        case q: True
        let ?doc = "\<lparr>bid = newObjectId (bookings s), buser = uid p, bexhibition = exId,
          boothType = tt, amount = n\<rparr>"
        have se: "saveExhibition exId (addQuota ex tt (- n)) s' =
            Inr (s'\<lparr>exhibitions := (exhibitions s')(exId \<mapsto> addQuota ex tt (- n))\<rparr>)" for s'
          using q nn [OF Some] by (auto simp: saveExhibition_def addQuota_def quotaOf_def)
        have sv: "saveBooking None ?doc (bookings s) = Inr bs \<Longrightarrow> bs = bookings s @ [?doc]" for bs
          by (auto simp: saveBooking_def split: option.splits)
        have "snd (createBooking today s p exId t a) = s \<or>
              snd (createBooking today s p exId t a) =
                s\<lparr>exhibitions := (exhibitions s)(exId \<mapsto> addQuota ex tt (- n)),
                  bookings := bookings s @ [?doc]\<rparr>"
          using Some t n nt
          by (auto simp: createBooking_def Let_def se dest: sv split: sum.splits)
        with Some t(2) show ?thesis by blast
      qed
    qed
  qed
qed

lemma createBooking_keeps_ledger:
  assumes k: "includesBoothType (Some k)"
    and nn: "\<And>ex. exhibitions s exId = Some ex \<Longrightarrow>
               0 \<le> smallBoothQuota ex \<and> 0 \<le> bigBoothQuota ex"
  shows "ledger (snd (createBooking today s p exId t a)) e k = ledger s e k"
proof -
  have "snd (createBooking today s p exId t a) = s \<or>
   (\<exists>ex tt n. exhibitions s exId = Some ex \<and> includesBoothType (Some tt) \<and>
      snd (createBooking today s p exId t a) =
        s\<lparr>exhibitions := (exhibitions s)(exId \<mapsto> addQuota ex tt (- n)),
          bookings := bookings s @
            [\<lparr>bid = newObjectId (bookings s), buser = uid p, bexhibition = exId,
              boothType = tt, amount = n\<rparr>]\<rparr>)"
    by (rule createBooking_cases) (rule nn)
  then show ?thesis
  proof (elim disjE exE conjE)
    assume "snd (createBooking today s p exId t a) = s"
    then show ?thesis by simp
  next
    fix ex tt n
    let ?doc = "\<lparr>bid = newObjectId (bookings s), buser = uid p, bexhibition = exId,
        boothType = tt, amount = n\<rparr>"
    assume ex: "exhibitions s exId = Some ex" and tt: "includesBoothType (Some tt)"
      and r: "snd (createBooking today s p exId t a) =
        s\<lparr>exhibitions := (exhibitions s)(exId \<mapsto> addQuota ex tt (- n)),
          bookings := bookings s @ [?doc]\<rparr>"
    show ?thesis
      using ex quotaOf_addQuota_valid [OF tt k, of ex "- n"]
      by (auto simp: r ledger_def totalBoothsForType_def sumAmount_append sumAmount_Cons
          sumAmount_Nil split: option.splits)
  qed
qed

lemma deleteBooking_keeps_ledger:
  assumes d: "distinct (map bid (bookings s))"
    and v: "\<And>b. b \<in> set (bookings s) \<Longrightarrow> includesBoothType (Some (boothType b))"
    and k: "includesBoothType (Some k)"
  shows "ledger (snd (deleteBooking s p i)) e k = ledger s e k"
proof (cases "findOne (ownQuery p i) (bookings s)")
  case None
  then show ?thesis by (simp add: deleteBooking_def)
next
  case (Some b)
  then have b: "b \<in> set (bookings s)"
    by (simp add: findOne_Some)
  have tot: "totalBoothsForType (deleteOne (bid b) (bookings s)) e k =
      totalBoothsForType (bookings s) e k
        - (if bexhibition b = e \<and> boothType b = k then amount b else 0)"
    by (simp add: totalBoothsForType_def sumAmount_deleteOne [OF d b])
  show ?thesis
  proof (cases "exhibitions s (bexhibition b)")
    case None
    with Some tot show ?thesis
      by (auto simp: deleteBooking_def ledger_def split: option.splits)
  next
    case ex: (Some ex)
    show ?thesis
    proof (cases "saveExhibition (bexhibition b) (addQuota ex (boothType b) (amount b)) s")
      case (Inl err)
      with Some ex show ?thesis by (simp add: deleteBooking_def)
    next
      case (Inr s1)
      then have s1: "s1 = s\<lparr>exhibitions :=
          (exhibitions s)(bexhibition b \<mapsto> addQuota ex (boothType b) (amount b))\<rparr>"
        by (simp add: saveExhibition_def split: if_splits)
      show ?thesis
        using Some ex Inr tot quotaOf_addQuota_valid [OF v [OF b] k, of ex "amount b"]
        by (auto simp: deleteBooking_def ledger_def s1 split: option.splits)
    qed
  qed
qed

lemma updateBooking_success_keeps_ledger:
  assumes d: "distinct (map bid (bookings s))"
    and v: "\<And>b. b \<in> set (bookings s) \<Longrightarrow> includesBoothType (Some (boothType b))"
    and k: "includesBoothType (Some k)"
    and ok: "status (fst (updateBooking s p i t a)) = 200"
  shows "ledger (snd (updateBooking s p i t a)) e k = ledger s e k"
proof -
  obtain b where f: "findOne (ownQuery p i) (bookings s) = Some b"
    using ok by (cases "findOne (ownQuery p i) (bookings s)") (auto simp: updateBooking_def)
  then have b: "b \<in> set (bookings s)"
    by (simp add: findOne_Some)
  obtain tt where t: "t = Some tt" "includesBoothType (Some tt)"
    using ok f by (cases t) (auto simp: updateBooking_def includesBoothType_def split: if_splits)
  obtain ex where ex: "exhibitions s (bexhibition b) = Some ex"
    using ok f t by (cases "exhibitions s (bexhibition b)") (auto simp: updateBooking_def)
  let ?n = "or_number a (amount b)"
  let ?doc = "b\<lparr>amount := ?n, boothType := tt\<rparr>"
  from updateBooking_commit [OF f t(2) ex, of a] ok t(1)
  have r: "snd (updateBooking s p i t a) =
      s\<lparr>exhibitions := (exhibitions s)(bexhibition b \<mapsto>
            addQuota (addQuota ex (boothType b) (amount b)) tt (- ?n)),
        bookings := updateOne ?doc (bookings s)\<rparr>"
    by simp
  have tot: "totalBoothsForType (updateOne ?doc (bookings s)) e k =
      totalBoothsForType (bookings s) e k
        - (if bexhibition b = e \<and> boothType b = k then amount b else 0)
        + (if bexhibition b = e \<and> tt = k then ?n else 0)"
    using sumAmount_updateOne [OF d b, of ?doc "\<lambda>x. bexhibition x = e \<and> boothType x = k"]
    by (simp add: totalBoothsForType_def)
  have q: "quotaOf (addQuota (addQuota ex (boothType b) (amount b)) tt (- ?n)) k =
      quotaOf ex k + (if boothType b = k then amount b else 0) + (if tt = k then - ?n else 0)"
    by (simp add: quotaOf_addQuota_valid [OF t(2) k] quotaOf_addQuota_valid [OF v [OF b] k])
  show ?thesis
    using ex tot q by (auto simp: r ledger_def split: option.splits)
qed

text \<open>
  C1. The ledger of the small booths of exhibition 1 is 11 in the initial database and
  after each of two creations of 3 small booths. The update of the first booking to 4 small
  booths is then rejected with 400 for the cap, the bookings still add up to 6, and the
  counter is 4: the ledger is 10. The rejected update has lost one booth, where creations,
  deletions and successful updates keep the ledger.
\<close>

theorem quota_ledger_broken_by_rejected_update:
  "ledger db0 1 ''small'' = Some 11 \<and>
   snd (createBooking 50 db0 alice 1 (Some ''small'') (Some 3)) = db1 3 \<and>
   ledger (db1 3) 1 ''small'' = Some 11 \<and>
   snd (createBooking 50 (db1 3) alice 1 (Some ''small'') (Some 3)) = db2 3 3 \<and>
   ledger (db2 3 3) 1 ''small'' = Some 11 \<and>
   status (fst (updateBooking (db2 3 3) alice 1 (Some ''small'') (Some 4))) = 400 \<and>
   bookings (snd (updateBooking (db2 3 3) alice 1 (Some ''small'') (Some 4))) = bookings (db2 3 3) \<and>
   ledger (snd (updateBooking (db2 3 3) alice 1 (Some ''small'') (Some 4))) 1 ''small'' = Some 10"
  by (simp add: handler_defs data_defs cap_message_caught ledger_def)

section \<open>The cap of 6 booths\<close>

text \<open>
  A save of a new document, a save of a stored document whose amount or booth type was
  changed, and a removal all keep the booking collection well-formed; the handlers change
  the collection in no other way.
\<close>

lemma bookings_ok_Nil: "bookings_ok []"
  by (simp add: bookings_ok_def totalBoothsForUser_def sumAmount_Nil)

lemma bookings_ok_insert:
  assumes ok: "bookings_ok bs" and new: "bid doc = newObjectId bs"
    and sv: "saveBooking None doc bs = Inr bs'"
  shows "bookings_ok bs'"
proof -
  from sv have bs': "bs' = bs @ [doc]" and v: "validateBooking doc = None"
    and h: "preSave bs None doc = None"
    by (auto simp: saveBooking_def split: option.splits)
  from v have a: "1 \<le> amount doc"
    by (auto simp: validateBooking_def isModifiedAmount_def split: if_splits)
  from h have "otherBookingsTotal bs doc + amount doc \<le> 6"
    by (auto simp: preSave_def isModifiedAmount_def Let_def split: if_splits)
  then have cap: "totalBoothsForUser bs (buser doc) (bexhibition doc) + amount doc \<le> 6"
    by (simp add: otherBookingsTotal_new [OF new])
  have "bid x \<noteq> bid doc" if "x \<in> set bs" for x
    using newObjectId_fresh [OF that] new by simp
  then have fresh: "bid doc \<notin> bid ` set bs"
    by force
  have "totalBoothsForUser bs' u e \<le> 6" for u e
  proof (cases "buser doc = u \<and> bexhibition doc = e")
    case True
    with cap show ?thesis
      by (auto simp: bs' totalBoothsForUser_def sumAmount_append sumAmount_Cons sumAmount_Nil)
  next
    case False
    then have "totalBoothsForUser bs' u e = totalBoothsForUser bs u e"
      by (auto simp: bs' totalBoothsForUser_def sumAmount_append sumAmount_Cons sumAmount_Nil)
    with ok show ?thesis
      by (simp add: bookings_ok_def)
  qed
  with ok a fresh show ?thesis
    by (simp add: bookings_ok_def bs')
qed

lemma bookings_ok_update:
  assumes ok: "bookings_ok bs" and b: "b \<in> set bs"
    and same: "bid doc = bid b" "buser doc = buser b" "bexhibition doc = bexhibition b"
    and sv: "saveBooking (Some b) doc bs = Inr bs'"
  shows "bookings_ok bs'"
proof -
  from ok have d: "distinct (map bid bs)" and am: "\<And>x. x \<in> set bs \<Longrightarrow> 1 \<le> amount x"
    and cap: "\<And>u e. totalBoothsForUser bs u e \<le> 6"
    by (simp_all add: bookings_ok_def)
  from sv have bs': "bs' = updateOne doc bs" and v: "validateBooking doc = None"
    and h: "preSave bs (Some b) doc = None"
    by (auto simp: saveBooking_def split: option.splits)
  have a: "1 \<le> amount doc"
  proof (cases "amount doc = amount b")
    case True
    with am [OF b] show ?thesis by simp
  next
    case False
    with v show ?thesis
      by (auto simp: validateBooking_def isModifiedAmount_def split: if_splits)
  qed
  have tot: "totalBoothsForUser bs' u e =
      totalBoothsForUser bs u e
        - (if buser b = u \<and> bexhibition b = e then amount b else 0)
        + (if buser b = u \<and> bexhibition b = e then amount doc else 0)" for u e
    unfolding bs' totalBoothsForUser_def
    by (simp add: sumAmount_updateOne [OF d b same(1)] same)
  have "totalBoothsForUser bs' u e \<le> 6" for u e
  proof (cases "buser b = u \<and> bexhibition b = e")
    case False
    with tot [of u e] cap [of u e] show ?thesis by simp
  next
    case True
    show ?thesis
    proof (cases "amount doc = amount b")
      case True
      with tot [of u e] cap [of u e] show ?thesis by simp
    next
      case False
      with h have "otherBookingsTotal bs doc + amount doc \<le> 6"
        by (auto simp: preSave_def isModifiedAmount_def Let_def split: if_splits)
      moreover have "otherBookingsTotal bs doc = totalBoothsForUser bs u e - amount b"
        using True sumAmount_exclude [OF d b, of "\<lambda>x. buser x = u \<and> bexhibition x = e"]
        by (simp add: otherBookingsTotal_def totalBoothsForUser_def same)
      ultimately show ?thesis
        using tot [of u e] True by simp
    qed
  qed
  moreover have "1 \<le> amount x" if "x \<in> set bs'" for x
    using set_updateOne [of x doc bs] that a am by (auto simp: bs')
  moreover have "distinct (map bid bs')"
    by (simp add: bs' map_bid_updateOne d)
  ultimately show ?thesis
    by (simp add: bookings_ok_def)
qed

lemma bookings_ok_delete:
  assumes ok: "bookings_ok bs"
  shows "bookings_ok (deleteOne i bs)"
proof -
  from ok have d: "distinct (map bid bs)" and am: "\<And>x. x \<in> set bs \<Longrightarrow> 1 \<le> amount x"
    and cap: "\<And>u e. totalBoothsForUser bs u e \<le> 6"
    by (simp_all add: bookings_ok_def)
  have nn: "0 \<le> amount x" if "x \<in> set bs" for x
    using am [OF that] by simp
  have "totalBoothsForUser (deleteOne i bs) u e \<le> 6" for u e
    using sumAmount_deleteOne_le [of bs "\<lambda>b. buser b = u \<and> bexhibition b = e" i, OF nn]
      cap [of u e]
    by (simp add: totalBoothsForUser_def)
  moreover have "1 \<le> amount x" if "x \<in> set (deleteOne i bs)" for x
    using set_deleteOne_subset [OF that] by (rule am)
  ultimately show ?thesis
    using distinct_deleteOne [OF d] by (simp add: bookings_ok_def)
qed


lemma saveExhibition_bookings: "saveExhibition i doc s = Inr s' \<Longrightarrow> bookings s' = bookings s"
  by (auto simp: saveExhibition_def split: if_splits)

lemma createBooking_bookings:
  "bookings (snd (createBooking today s p exId t a)) = bookings s \<or>
   (\<exists>doc. bid doc = newObjectId (bookings s) \<and>
      saveBooking None doc (bookings s) = Inr (bookings (snd (createBooking today s p exId t a))))"
  by (auto simp: createBooking_def Let_def dest: saveExhibition_bookings
      split: option.splits sum.splits)

lemma updateBooking_bookings:
  "bookings (snd (updateBooking s p i t a)) = bookings s \<or>
   (\<exists>b doc. b \<in> set (bookings s) \<and> bid doc = bid b \<and> buser doc = buser b \<and>
      bexhibition doc = bexhibition b \<and>
      saveBooking (Some b) doc (bookings s) = Inr (bookings (snd (updateBooking s p i t a))))"
proof (cases "findOne (ownQuery p i) (bookings s)")
  case None
  then show ?thesis by (simp add: updateBooking_def)
next
  case (Some b)
  then have b: "b \<in> set (bookings s)"
    by (simp add: findOne_Some)
  let ?doc = "b\<lparr>amount := or_number a (amount b), boothType := or_string t (boothType b)\<rparr>"
  have "bookings (snd (updateBooking s p i t a)) = bookings s \<or>
        saveBooking (Some b) ?doc (bookings s) = Inr (bookings (snd (updateBooking s p i t a)))"
    using Some
    by (auto simp: updateBooking_def Let_def dest: saveExhibition_bookings
        split: option.splits sum.splits)
  moreover have "bid ?doc = bid b \<and> buser ?doc = buser b \<and> bexhibition ?doc = bexhibition b"
    by simp
  ultimately show ?thesis
    using b by blast
qed

lemma deleteBooking_bookings:
  "bookings (snd (deleteBooking s p i)) = bookings s \<or>
   (\<exists>j. bookings (snd (deleteBooking s p i)) = deleteOne j (bookings s))"
proof (cases "findOne (ownQuery p i) (bookings s)")
  case None
  then show ?thesis by (simp add: deleteBooking_def)
next
  case (Some b)
  show ?thesis
  proof (cases "exhibitions s (bexhibition b)")
    case None
    with Some show ?thesis
      by (auto simp: deleteBooking_def)
  next
    case ex: (Some ex)
    show ?thesis
    proof (cases "saveExhibition (bexhibition b) (addQuota ex (boothType b) (amount b)) s")
      case (Inl e)
      with Some ex show ?thesis by (simp add: deleteBooking_def)
    next
      case (Inr s1)
      with Some ex saveExhibition_bookings [OF Inr] show ?thesis
        by (auto simp: deleteBooking_def)
    qed
  qed
qed

lemma reachable_bookings_ok: "reachable s \<Longrightarrow> bookings_ok (bookings s)"
proof (induction rule: reachable.induct)
  case (initial s)
  then show ?case by (simp add: bookings_ok_Nil)
next
  case (create s today p exId t a)
  with createBooking_bookings [of today s p exId t a] show ?case
    by (auto intro: bookings_ok_insert)
next
  case (update s p i t a)
  with updateBooking_bookings [of s p i t a] show ?case
    by (auto intro: bookings_ok_update)
next
  case (delete s p i)
  with deleteBooking_bookings [of s p i] show ?case
    by (auto intro: bookings_ok_delete)
next
  case (deleteEx s i)
  then show ?case
    by (simp add: deleteExhibition_def split: option.splits)
qed

text \<open>
  C2. In every state reached from a database without bookings by creations, updates and
  deletions of bookings (and deletions of exhibitions), by any principals with any
  arguments, the booths of each (user, exhibition) pair add up to at most 6.
\<close>

theorem per_user_cap_invariant:
  assumes "reachable s"
  shows "totalBoothsForUser (bookings s) u e \<le> 6"
  using reachable_bookings_ok [OF assms] by (simp add: bookings_ok_def)

theorem per_user_cap_invariant_witness:
  "reachable (db2 3 3) \<and> totalBoothsForUser (bookings (db2 3 3)) 1 1 = 6 \<and>
   reachable (snd (updateBooking (db2 3 3) alice 1 (Some ''small'') (Some 4))) \<and>
   totalBoothsForUser (bookings (snd (updateBooking (db2 3 3) alice 1 (Some ''small'') (Some 4)))) 1 1
     \<le> 6"
proof -
  have "reachable db0"
    by (rule reachable.initial) (simp add: db0_def)
  then have "reachable (snd (createBooking 50 db0 alice 1 (Some ''small'') (Some 3)))"
    by (rule reachable.create)
  moreover have "snd (createBooking 50 db0 alice 1 (Some ''small'') (Some 3)) = db1 3"
    by (simp add: handler_defs data_defs)
  ultimately have "reachable (db1 3)"
    by simp
  then have "reachable (snd (createBooking 50 (db1 3) alice 1 (Some ''small'') (Some 3)))"
    by (rule reachable.create)
  moreover have "snd (createBooking 50 (db1 3) alice 1 (Some ''small'') (Some 3)) = db2 3 3"
    by (simp add: handler_defs data_defs)
  ultimately have r: "reachable (db2 3 3)"
    by simp
  then have r': "reachable (snd (updateBooking (db2 3 3) alice 1 (Some ''small'') (Some 4)))"
    by (rule reachable.update)
  have "totalBoothsForUser (bookings (db2 3 3)) 1 1 = 6"
    by (simp add: data_defs totalBoothsForUser_def sumAmount_def)
  with r r' per_user_cap_invariant [OF r'] show ?thesis
    by simp
qed

text \<open>
  C6. The cap is enforced by \<^verbatim>\<open>save\<close> itself, with no help from a handler: on a
  well-formed collection, a save of a new booking, or of a stored booking with changed
  amount or booth type, for which the other bookings of the pair plus the document's own
  amount exceed 6, is rejected with an error (the hook's cap error, or a validation error
  raised before the hook runs). The hook skips its check when the amount is not modified; the
  pair's total is then the one already stored, which is at most 6.
\<close>

theorem persistence_cap_guard:
  assumes "bookings_ok bs"
    and "orig = None \<or>
         (\<exists>b \<in> set bs. orig = Some b \<and> bid doc = bid b \<and> buser doc = buser b \<and>
            bexhibition doc = bexhibition b)"
    and "otherBookingsTotal bs doc + amount doc > 6"
  shows "saveBooking orig doc bs =
           Inl (HookError ''Total number of booths cannot exceed 6 per exhibition'') \<or>
         (\<exists>m. saveBooking orig doc bs = Inl (ValidationError m))"
proof -
  have "isModifiedAmount orig doc"
  proof (rule ccontr)
    assume n: "\<not> isModifiedAmount orig doc"
    with assms(2) obtain b where b: "b \<in> set bs" "orig = Some b" "bid doc = bid b"
      "buser doc = buser b" "bexhibition doc = bexhibition b" "amount doc = amount b"
      by (auto simp: isModifiedAmount_def)
    from assms(1) have d: "distinct (map bid bs)"
      and cap: "totalBoothsForUser bs (buser b) (bexhibition b) \<le> 6"
      by (simp_all add: bookings_ok_def)
    have "otherBookingsTotal bs doc = totalBoothsForUser bs (buser b) (bexhibition b) - amount b"
      using sumAmount_exclude [OF d b(1), of "\<lambda>x. buser x = buser b \<and> bexhibition x = bexhibition b"]
      by (simp add: otherBookingsTotal_def totalBoothsForUser_def b)
    with assms(3) cap b(6) show False
      by simp
  qed
  with assms(3) show ?thesis
    by (simp add: saveBooking_def validateBooking_def preSave_def Let_def)
qed

theorem persistence_cap_guard_witness:
  "bookings_ok (bookings (db2 3 3)) \<and>
   otherBookingsTotal (bookings (db2 3 3)) (small_booking 3 1) + amount (small_booking 3 1) > 6 \<and>
   saveBooking None (small_booking 3 1) (bookings (db2 3 3)) =
     Inl (HookError ''Total number of booths cannot exceed 6 per exhibition'') \<and>
   saveBooking (Some (small_booking 1 3)) (small_booking 1 4) (bookings (db2 3 3)) =
     Inl (HookError ''Total number of booths cannot exceed 6 per exhibition'')"
proof -
  have ok: "bookings_ok (bookings (db2 3 3))"
    by (auto simp: bookings_ok_def data_defs totalBoothsForUser_def sumAmount_def)
  have o1: "otherBookingsTotal (bookings (db2 3 3)) (small_booking 3 1) + amount (small_booking 3 1) > 6"
    by (simp add: data_defs otherBookingsTotal_def sumAmount_def)
  have o2: "otherBookingsTotal (bookings (db2 3 3)) (small_booking 1 4) + amount (small_booking 1 4) > 6"
    by (simp add: data_defs otherBookingsTotal_def sumAmount_def)
  have e: "\<exists>b \<in> set (bookings (db2 3 3)). Some (small_booking 1 3) = Some b \<and>
      bid (small_booking 1 4) = bid b \<and> buser (small_booking 1 4) = buser b \<and>
      bexhibition (small_booking 1 4) = bexhibition b"
    by (simp add: data_defs)
  have v1: "validateBooking (small_booking 3 1) = None"
    and v2: "validateBooking (small_booking 1 4) = None"
    by (simp_all add: validateBooking_def data_defs)
  have n: "saveBooking orig doc bs \<noteq> Inl (ValidationError m)" if "validateBooking doc = None"
    for orig doc bs m
    using that by (auto simp: saveBooking_def preSave_def Let_def split: option.splits)
  show ?thesis
    using persistence_cap_guard [OF ok disjI1 [OF refl] o1]
      persistence_cap_guard [OF ok disjI2 [OF e] o2] n [OF v1] n [OF v2] ok o1
    by blast
qed

section \<open>Deleting an exhibition\<close>

text \<open>
  C10. Deleting an exhibition leaves the booking collection as it is: every booking that
  refers to the exhibition stays stored, unchanged. Bookings do not block the deletion: an
  exhibition that is found is removed and the answer is 200, whatever bookings refer to it,
  and no other exhibition is touched.
\<close>

theorem deleteExhibition_orphans_bookings:
  "bookings (snd (deleteExhibition s i)) = bookings s \<and>
   (exhibitions s i \<noteq> None \<longrightarrow>
      status (fst (deleteExhibition s i)) = 200 \<and>
      exhibitions (snd (deleteExhibition s i)) = (exhibitions s)(i := None))"
  by (simp add: deleteExhibition_def split: option.splits)

theorem deleteExhibition_orphans_bookings_witness:
  "exhibitions (db1 3) 1 \<noteq> None \<and>
   findOne (\<lambda>b. bexhibition b = 1) (bookings (db1 3)) = Some (small_booking 1 3) \<and>
   bookings (snd (deleteExhibition (db1 3) 1)) = [small_booking 1 3] \<and>
   status (fst (deleteExhibition (db1 3) 1)) = 200 \<and>
   exhibitions (snd (deleteExhibition (db1 3) 1)) 1 = None"
  using deleteExhibition_orphans_bookings [of "db1 3" 1]
  by (simp add: db1_def small_booking_def)

end
